theory Spec2Isabelle
  imports Complex_Main
begin

section \<open>The timing registry of src/lib/performance.ts\<close>

text \<open>
  The module keeps a process-wide \<open>Map<string, PerformanceMetric>\<close> inside the
  singleton \<open>PerformanceMonitor\<close>, reads the clock with \<open>performance.now()\<close> and
  writes to a logger and to the console.

  \<^item> A reading of the clock is a finite, non-negative double; it is modelled as the
    real number it denotes (\<open>number\<close>). The difference of two readings is computed as
    the program computes it, rounded to the nearest double (\<open>minus_number\<close>).
  \<^item> A number handed in by a caller may be any double, NaN and the infinities
    included (\<open>js_number\<close>).
  \<^item> Every call of \<open>performance.now()\<close> is a parameter of the operation that makes it
    (the value the clock returned at that point).
  \<^item> The \<open>Map\<close> is an association list in insertion order, which is the order
    \<open>entries()\<close> and \<open>values()\<close> iterate in.
  \<^item> The logger and the console are a list of emitted entries, oldest first.
\<close>

subsection \<open>Data\<close>

type_synonym number = real

record PerformanceMetric =
  name :: string
  startTime :: number
  endTime :: "number option"
  duration :: "number option"

subsection \<open>Subtraction and comparison of doubles\<close>

text \<open>
  The result of an arithmetic operation on doubles is the exact result rounded to
  nearest, ties to even. The doubles around \<open>x\<close> are the integer multiples of
  \<open>2 powi double_exponent x\<close>: 53 significant bits, and the spacing of the subnormal
  range, \<open>2 powi (- 1074)\<close>, below the smallest normal binade. The two zeros are one
  value here: no comparison of the program tells them apart.
\<close>

definition round_half_even :: "real \<Rightarrow> int" where
  "round_half_even y =
     (let n = \<lfloor>y\<rfloor>; f = y - of_int n
      in if f < 1 / 2 then n else if 1 / 2 < f then n + 1 else if even n then n else n + 1)"

definition double_exponent :: "real \<Rightarrow> int" where
  "double_exponent x = max (\<lfloor>log 2 \<bar>x\<bar>\<rfloor> - 52) (- 1074)"

definition round_double :: "real \<Rightarrow> real" where
  "round_double x =
     (if x = 0 then 0
      else of_int (round_half_even (x / 2 powi double_exponent x)) * 2 powi double_exponent x)"

text \<open>
  \<open>a - b\<close> on two clock readings. Both lie between 0 and the largest double,
  \<open>(2 ^ 53 - 1) * 2 ^ 971\<close>, so the rounded difference is finite
  (\<open>clock_difference_finite\<close> below).
\<close>

definition minus_number :: "number \<Rightarrow> number \<Rightarrow> number" where
  "minus_number a b = round_double (a - b)"

datatype js_number = Finite number | PositiveInfinity | NegativeInfinity | NaN

text \<open>A rounded result of magnitude \<open>2 ^ 1024\<close> or more overflows to an infinity.\<close>

definition to_js_number :: "real \<Rightarrow> js_number" where
  "to_js_number r =
     (if 2 ^ 1024 \<le> r then PositiveInfinity
      else if r \<le> - (2 ^ 1024) then NegativeInfinity
      else Finite r)"

text \<open>\<open>a - b\<close> on any two doubles.\<close>

fun js_minus :: "js_number \<Rightarrow> js_number \<Rightarrow> js_number" where
  "js_minus NaN b = NaN"
| "js_minus a NaN = NaN"
| "js_minus PositiveInfinity PositiveInfinity = NaN"
| "js_minus NegativeInfinity NegativeInfinity = NaN"
| "js_minus PositiveInfinity b = PositiveInfinity"
| "js_minus NegativeInfinity b = NegativeInfinity"
| "js_minus (Finite a) PositiveInfinity = NegativeInfinity"
| "js_minus (Finite a) NegativeInfinity = PositiveInfinity"
| "js_minus (Finite a) (Finite b) = to_js_number (minus_number a b)"

text \<open>\<open>a > b\<close> on any two doubles: false as soon as one of them is NaN.\<close>

fun js_greater :: "js_number \<Rightarrow> js_number \<Rightarrow> bool" where
  "js_greater NaN b = False"
| "js_greater a NaN = False"
| "js_greater PositiveInfinity PositiveInfinity = False"
| "js_greater PositiveInfinity b = True"
| "js_greater NegativeInfinity b = False"
| "js_greater (Finite a) PositiveInfinity = False"
| "js_greater (Finite a) NegativeInfinity = True"
| "js_greater (Finite a) (Finite b) = (b < a)"

subsection \<open>Log entries\<close>

text \<open>
  The message templates contain non-ASCII text and number formatting
  (\<open>toFixed(2)\<close>); a message is kept as its template together with the values
  interpolated into it.
  \<^item> \<open>MeasureNotFound n\<close>: the warning of \<open>endMeasure\<close> that measurement \<open>n\<close> was not found;
  \<^item> \<open>MeasureDone n\<close>: the debug line of \<open>endMeasure\<close> for measurement \<open>n\<close>;
  \<^item> \<open>ComponentRendering c\<close>: the debug line of the render wrapper for component \<open>c\<close>;
  \<^item> \<open>PerformanceWarning f t\<close>: "Performance warning: f took t ms to execute";
  \<^item> \<open>PerformanceLine f t\<close>: "Performance: f - t ms".
\<close>

datatype message =
    MeasureNotFound string
  | MeasureDone string
  | ComponentRendering string
  | PerformanceWarning string js_number
  | PerformanceLine string js_number

datatype log_entry =
    LoggerWarn message
  | LoggerDebug message "(string \<times> number) list"
  | ConsoleWarn message
  | ConsoleLog message

record world =
  metrics :: "(string \<times> PerformanceMetric) list"
  logs :: "log_entry list"

subsection \<open>The operations of a JavaScript Map, in insertion order\<close>

text \<open>
  \<open>set\<close> on a key that is present replaces the value and keeps the entry's position;
  on a new key it appends the entry.
\<close>

fun Map_set :: "('k \<times> 'v) list \<Rightarrow> 'k \<Rightarrow> 'v \<Rightarrow> ('k \<times> 'v) list" where
  "Map_set [] k v = [(k, v)]"
| "Map_set (e # es) k v = (if fst e = k then (k, v) # es else e # Map_set es k v)"

fun Map_get :: "('k \<times> 'v) list \<Rightarrow> 'k \<Rightarrow> 'v option" where
  "Map_get [] k = None"
| "Map_get (e # es) k = (if fst e = k then Some (snd e) else Map_get es k)"

definition Map_delete :: "('k \<times> 'v) list \<Rightarrow> 'k \<Rightarrow> ('k \<times> 'v) list" where
  "Map_delete es k = filter (\<lambda>e. fst e \<noteq> k) es"

definition Map_size :: "('k \<times> 'v) list \<Rightarrow> nat" where
  "Map_size es = length es"

definition Map_keys :: "('k \<times> 'v) list \<Rightarrow> 'k list" where
  "Map_keys es = map fst es"

subsection \<open>Array.prototype.sort with a comparator\<close>

text \<open>
  The sort is stable: \<open>compareFn a b \<le> 0\<close> keeps \<open>a\<close> in front of a \<open>b\<close> that
  followed it. It is written as insertion from the right end.
\<close>

fun insert_sorted :: "('a \<Rightarrow> 'a \<Rightarrow> number) \<Rightarrow> 'a \<Rightarrow> 'a list \<Rightarrow> 'a list" where
  "insert_sorted compareFn a [] = [a]"
| "insert_sorted compareFn a (b # bs) =
     (if compareFn a b \<le> 0 then a # b # bs else b # insert_sorted compareFn a bs)"

fun Array_sort :: "('a \<Rightarrow> 'a \<Rightarrow> number) \<Rightarrow> 'a list \<Rightarrow> 'a list" where
  "Array_sort compareFn [] = []"
| "Array_sort compareFn (a # as) = insert_sorted compareFn a (Array_sort compareFn as)"

subsection \<open>Logger and console\<close>

definition emit :: "log_entry \<Rightarrow> world \<Rightarrow> world" where
  "emit e w = w\<lparr>logs := logs w @ [e]\<rparr>"

subsection \<open>PerformanceMonitor\<close>

definition maxMetrics :: nat where
  "maxMetrics = 1000"

text \<open>
  The comparator of \<open>clearOldMetrics\<close>. Only its sign is used, and on two doubles the
  rounded difference has the sign of the exact one (a difference of two distinct
  doubles never rounds to zero), so the exact difference stands for it.
\<close>

definition byStartTime :: "string \<times> PerformanceMetric \<Rightarrow> string \<times> PerformanceMetric \<Rightarrow> number" where
  "byStartTime x y = startTime (snd x) - startTime (snd y)"

definition clearOldMetrics :: "world \<Rightarrow> world" where
  "clearOldMetrics w =
     (case Array_sort byStartTime (metrics w) of
        [] \<Rightarrow> w
      | oldestMetric # _ \<Rightarrow> w\<lparr>metrics := Map_delete (metrics w) (fst oldestMetric)\<rparr>)"

definition startMeasure :: "number \<Rightarrow> string \<Rightarrow> world \<Rightarrow> world" where
  "startMeasure now nm w =
     (let w1 = (if Map_size (metrics w) \<ge> maxMetrics then clearOldMetrics w else w)
      in w1\<lparr>metrics := Map_set (metrics w1) nm
               \<lparr>name = nm, startTime = now, endTime = None, duration = None\<rparr>\<rparr>)"

definition endMeasure :: "number \<Rightarrow> string \<Rightarrow> world \<Rightarrow> number option \<times> world" where
  "endMeasure now nm w =
     (case Map_get (metrics w) nm of
        None \<Rightarrow> (None, emit (LoggerWarn (MeasureNotFound nm)) w)
      | Some metric \<Rightarrow>
          (let metric1 = metric\<lparr>endTime := Some now\<rparr>;
               d = minus_number now (startTime metric1);
               metric2 = metric1\<lparr>duration := Some d\<rparr>;
               w1 = w\<lparr>metrics := Map_set (metrics w) nm metric2\<rparr>;
               w2 = emit (LoggerDebug (MeasureDone nm)
                      [(''duration'', d), (''startTime'', startTime metric2), (''endTime'', now)]) w1
           in (Some d, w2)))"

definition getMetric :: "string \<Rightarrow> world \<Rightarrow> PerformanceMetric option" where
  "getMetric nm w = Map_get (metrics w) nm"

definition getAllMetrics :: "world \<Rightarrow> PerformanceMetric list" where
  "getAllMetrics w = map snd (metrics w)"

definition clearMetrics :: "world \<Rightarrow> world" where
  "clearMetrics w = w\<lparr>metrics := []\<rparr>"

subsection \<open>The decorator measure(name)\<close>




subsection \<open>The higher-order component withPerformanceMonitoring\<close>

text \<open>
  \<open>React.createElement\<close> belongs to the React library and is a parameter here; it builds
  an element from the component and the props and touches neither registry nor logs.
\<close>

definition withPerformanceMonitoring ::
  "('c \<Rightarrow> 'p \<Rightarrow> 'el) \<Rightarrow> 'c \<Rightarrow> string \<Rightarrow> number \<Rightarrow> number \<Rightarrow> 'p \<Rightarrow> world \<Rightarrow> 'el \<times> world" where
  "withPerformanceMonitoring createElement WrappedComponent componentName t0 t1 props w =
     (let startTime' = t0;
          result = createElement WrappedComponent props;
          endTime' = t1;
          duration' = minus_number endTime' startTime'
      in (result,
          emit (LoggerDebug (ComponentRendering componentName)
                  [(''duration'', duration'), (''startTime'', startTime'), (''endTime'', endTime')]) w))"

subsection \<open>monitorPerformance\<close>

text \<open>
  \<open>startTime\<close> is the caller's and may be any double; \<open>now\<close> is the clock's reading.
\<close>

definition monitorPerformance :: "number \<Rightarrow> string \<Rightarrow> js_number \<Rightarrow> world \<Rightarrow> world" where
  "monitorPerformance now functionName startTime' w =
     (let endTime' = Finite now;
          executionTime = js_minus endTime' startTime';
          w1 = (if js_greater executionTime (Finite 100)
                then emit (ConsoleWarn (PerformanceWarning functionName executionTime)) w
                else w)
      in emit (ConsoleLog (PerformanceLine functionName executionTime)) w1)"

subsection \<open>Sequences of calls of the public methods\<close>

datatype operation =
    StartMeasure number string
  | EndMeasure number string
  | GetMetric string
  | GetAllMetrics
  | ClearMetrics

text \<open>The reads return their value to the caller and leave the world as it is.\<close>

fun perform :: "operation \<Rightarrow> world \<Rightarrow> world" where
  "perform (StartMeasure t nm) w = startMeasure t nm w"
| "perform (EndMeasure t nm) w = snd (endMeasure t nm w)"
| "perform (GetMetric nm) w = w"
| "perform GetAllMetrics w = w"
| "perform ClearMetrics w = clearMetrics w"

fun run :: "operation list \<Rightarrow> world \<Rightarrow> world" where
  "run [] w = w"
| "run (operation # rest) w = run rest (perform operation w)"

text \<open>The state of the singleton when \<open>getInstance\<close> creates it: an empty Map.\<close>

definition newMonitor :: world where
  "newMonitor = \<lparr>metrics = [], logs = []\<rparr>"

subsection \<open>A registry with n records, for concrete instances\<close>

definition sample_key :: "nat \<Rightarrow> string" where
  "sample_key i = replicate i (CHR ''k'')"

definition sample_metric :: "nat \<Rightarrow> string \<times> PerformanceMetric" where
  "sample_metric i =
     (sample_key i, \<lparr>name = sample_key i, startTime = real i, endTime = None, duration = None\<rparr>)"

definition sample_world :: "nat \<Rightarrow> world" where
  "sample_world n = \<lparr>metrics = map sample_metric [0..<n], logs = []\<rparr>"

subsection \<open>Wrapped methods, for concrete instances\<close>




section \<open>Properties\<close>

subsection \<open>Rounding to a double\<close>

lemma round_half_even_of_int: "round_half_even (of_int n) = n"
  by (simp add: round_half_even_def)

lemma round_half_even_nonneg: "0 \<le> y \<Longrightarrow> 0 \<le> round_half_even y"
proof -
  assume "0 \<le> y"
  then have "0 \<le> \<lfloor>y\<rfloor>"
    by simp
  then show ?thesis
    by (simp add: round_half_even_def Let_def)
qed

lemma round_double_nonneg: "0 \<le> x \<Longrightarrow> 0 \<le> round_double x"
proof -
  assume nonneg: "0 \<le> x"
  have pos: "(0::real) < 2 powi double_exponent x"
    by simp
  with nonneg have "0 \<le> x / 2 powi double_exponent x"
    by simp
  then have "0 \<le> round_half_even (x / 2 powi double_exponent x)"
    by (rule round_half_even_nonneg)
  with pos show ?thesis
    by (simp add: round_double_def)
qed

lemma double_exponent_binade:
  assumes "2 powi k \<le> \<bar>x\<bar>" and "\<bar>x\<bar> < 2 powi (k + 1)"
  shows "double_exponent x = max (k - 52) (- 1074)"
proof -
  have pos: "0 < \<bar>x\<bar>"
    using assms(1) zero_less_power_int [of "2::real" k] by linarith
  have "(2::real) powr real_of_int k = 2 powi k"
    by (simp add: powr_real_of_int')
  moreover have "(2::real) powr (real_of_int k + 1) = 2 powi (k + 1)"
    using powr_real_of_int' [of "2::real" "k + 1"] by simp
  ultimately
  have "2 powr real_of_int k \<le> \<bar>x\<bar> \<and> \<bar>x\<bar> < 2 powr (real_of_int k + 1)"
    using assms by simp
  with pos have "\<lfloor>log 2 \<bar>x\<bar>\<rfloor> = k"
    by (simp add: floor_log_eq_powr_iff)
  then show ?thesis
    by (simp add: double_exponent_def)
qed

lemma round_double_binade:
  assumes "2 ^ k \<le> \<bar>x\<bar>" and "\<bar>x\<bar> < 2 ^ Suc k" and "k \<le> 52"
  shows "round_double x = of_int (round_half_even (x * 2 ^ (52 - k))) / 2 ^ (52 - k)"
proof -
  have "2 powi int k \<le> \<bar>x\<bar>" "\<bar>x\<bar> < 2 powi (int k + 1)"
    using assms(1,2) by (simp_all add: power_int_add)
  then have "double_exponent x = max (int k - 52) (- 1074)"
    by (rule double_exponent_binade)
  with assms(3) have e: "double_exponent x = - int (52 - k)"
    by simp
  have "(0::real) < 2 ^ k"
    by simp
  with assms(1) have "0 < \<bar>x\<bar>"
    by linarith
  then have nz: "x \<noteq> 0"
    by simp
  have p: "(2::real) powi (- int (52 - k)) = inverse (2 ^ (52 - k))"
    by (simp add: power_int_minus)
  show ?thesis
    using nz by (simp add: round_double_def e p divide_inverse)
qed

lemma round_double_of_int:
  assumes "\<bar>n\<bar> < 2 ^ 53"
  shows "round_double (of_int n) = of_int n"
proof (cases "n = 0")
  case True
  then show ?thesis by (simp add: round_double_def)
next
  case False
  define e where "e = double_exponent (of_int n)"
  have "1 \<le> \<bar>real_of_int n\<bar>"
    using False by (simp flip: of_int_abs)
  then have "0 \<le> log 2 \<bar>real_of_int n\<bar>"
    by simp
  then have lo: "0 \<le> \<lfloor>log 2 \<bar>real_of_int n\<bar>\<rfloor>"
    by simp
  have "\<bar>real_of_int n\<bar> < 2 ^ 53"
    using assms by (metis of_int_abs of_int_less_numeral_power_cancel_iff)
  then have "log 2 \<bar>real_of_int n\<bar> < 53"
    using \<open>1 \<le> \<bar>real_of_int n\<bar>\<close> by (simp add: log_less_iff powr_numeral)
  then have hi: "\<lfloor>log 2 \<bar>real_of_int n\<bar>\<rfloor> \<le> 52"
    by (simp add: floor_le_iff)
  from lo hi have e: "e = \<lfloor>log 2 \<bar>real_of_int n\<bar>\<rfloor> - 52" and neg: "e \<le> 0"
    by (simp_all add: e_def double_exponent_def)
  define m where "m = nat (- e)"
  with neg have em: "e = - int m"
    by simp
  have "real_of_int n / 2 powi e = of_int (n * 2 ^ m)"
    by (simp add: em power_int_minus field_simps)
  then have "round_half_even (real_of_int n / 2 powi e) = n * 2 ^ m"
    by (simp only: round_half_even_of_int)
  then have "round_double (of_int n) = of_int (n * 2 ^ m) * 2 powi e"
    using False by (simp add: round_double_def e_def)
  then show ?thesis
    by (simp add: em power_int_minus)
qed

lemma round_double_numeral:
  "(numeral k :: int) < 2 ^ 53 \<Longrightarrow> round_double (numeral k) = numeral k"
  using round_double_of_int [of "numeral k"] by simp

lemma minus_number_nonneg: "b \<le> a \<Longrightarrow> 0 \<le> minus_number a b"
  by (simp add: minus_number_def round_double_nonneg)

lemma round_half_even_error: "\<bar>of_int (round_half_even y) - y\<bar> \<le> 1 / 2"
proof -
  have "0 \<le> y - of_int \<lfloor>y\<rfloor>" "y - of_int \<lfloor>y\<rfloor> < 1"
    by linarith+
  then show ?thesis
    by (auto simp: round_half_even_def Let_def)
qed

lemma round_double_error:
  "\<bar>round_double x - x\<bar> \<le> 2 powi double_exponent x / 2"
proof (cases "x = 0")
  case True
  then show ?thesis by (simp add: round_double_def)
next
  case False
  define u :: real where "u = 2 powi double_exponent x"
  have pos: "0 < u"
    by (simp add: u_def)
  have "round_double x - x = (of_int (round_half_even (x / u)) - x / u) * u"
    using False pos by (simp add: round_double_def u_def field_simps)
  then have "\<bar>round_double x - x\<bar> = \<bar>of_int (round_half_even (x / u)) - x / u\<bar> * u"
    using pos by (simp add: abs_mult)
  also have "\<dots> \<le> 1 / 2 * u"
    using pos round_half_even_error [of "x / u"] by (intro mult_right_mono) simp_all
  finally show ?thesis
    by (simp add: u_def)
qed

lemma double_exponent_below_overflow:
  assumes "x \<noteq> 0" and "\<bar>x\<bar> < 2 ^ 1024"
  shows "double_exponent x \<le> 971"
proof -
  have "log 2 \<bar>x\<bar> < 1024"
    using assms by (simp add: log_less_iff powr_numeral)
  then have "\<lfloor>log 2 \<bar>x\<bar>\<rfloor> \<le> 1023"
    by (simp add: floor_le_iff)
  then show ?thesis
    by (simp add: double_exponent_def)
qed

text \<open>
  On two clock readings, both between 0 and the largest double, the general subtraction
  \<open>js_minus\<close> never overflows and is \<open>minus_number\<close>.
\<close>

lemma clock_difference_finite:
  assumes "0 \<le> a" and "a \<le> (2 ^ 53 - 1) * 2 ^ 971"
    and "0 \<le> b" and "b \<le> (2 ^ 53 - 1) * 2 ^ 971"
  shows "js_minus (Finite a) (Finite b) = Finite (minus_number a b)"
proof (cases "a = b")
  case True
  then show ?thesis
    by (simp add: minus_number_def round_double_def to_js_number_def)
next
  case False
  let ?r = "a - b"
  have nz: "?r \<noteq> 0"
    using False by simp
  have bound: "\<bar>?r\<bar> \<le> (2 ^ 53 - 1) * 2 ^ 971"
    using assms by linarith
  have "((2::real) ^ 53 - 1) * 2 ^ 971 = 2 ^ 1024 - 2 ^ 971"
    by simp
  with bound have small: "\<bar>?r\<bar> \<le> 2 ^ 1024 - 2 ^ 971"
    by simp
  then have "\<bar>?r\<bar> < 2 ^ 1024"
    by simp
  from double_exponent_below_overflow [OF nz this]
  have "(2::real) powi double_exponent ?r \<le> 2 powi 971"
    by (intro power_int_increasing) simp_all
  then have "(2::real) powi double_exponent ?r / 2 \<le> 2 ^ 970"
    by simp
  with round_double_error [of ?r] have "\<bar>round_double ?r - ?r\<bar> \<le> 2 ^ 970"
    by linarith
  with small have "\<bar>round_double ?r\<bar> \<le> 2 ^ 1024 - 2 ^ 971 + 2 ^ 970"
    by linarith
  then have "\<bar>round_double ?r\<bar> < 2 ^ 1024"
    by simp
  then show ?thesis
    by (simp add: minus_number_def to_js_number_def abs_less_iff not_le)
qed

text \<open>
  The doubles nearest to 0.1, 0.7 and 100.7 are \<open>3602879701896397 / 2 ^ 55\<close>,
  \<open>6305039478318694 / 2 ^ 53\<close> and \<open>7086132538690765 / 2 ^ 46\<close>. The program's
  \<open>100.7 - 0.1\<close> is the double \<open>7079095664272999 / 2 ^ 46\<close> (printed
  100.60000000000001), not the exact difference, and its \<open>100.7 - 0.7\<close> is 100.
\<close>

lemma minus_number_rounds_up:
  "minus_number (7086132538690765 / 2 ^ 46) (3602879701896397 / 2 ^ 55) =
     7079095664272999 / 2 ^ 46"
  unfolding minus_number_def
  by (subst round_double_binade [where k = 6]) (simp_all add: round_half_even_def Let_def)

lemma minus_number_rounds_down:
  "minus_number (7086132538690765 / 2 ^ 46) (6305039478318694 / 2 ^ 53) = 100"
  unfolding minus_number_def
  by (subst round_double_binade [where k = 6]) (simp_all add: round_half_even_def Let_def)

subsection \<open>The Map operations\<close>

lemma Map_get_set_same: "Map_get (Map_set es k v) k = Some v"
  by (induction es) auto


lemma Map_get_set_other: "k' \<noteq> k \<Longrightarrow> Map_get (Map_set es k v) k' = Map_get es k'"
  by (induction es) auto

lemma Map_get_None_iff: "Map_get es k = None \<longleftrightarrow> k \<notin> set (Map_keys es)"
  by (induction es) (auto simp: Map_keys_def)

lemma Map_get_Some_mem: "Map_get es k = Some v \<Longrightarrow> (k, v) \<in> set es"
  by (induction es) (auto split: if_splits)

lemma Map_get_mem: "distinct (Map_keys es) \<Longrightarrow> (k, v) \<in> set es \<Longrightarrow> Map_get es k = Some v"
  by (induction es) (auto simp: Map_keys_def rev_image_eqI)

lemma Map_set_fresh: "k \<notin> set (Map_keys es) \<Longrightarrow> Map_set es k v = es @ [(k, v)]"
  by (induction es) (auto simp: Map_keys_def)

lemma Map_size_set:
  "Map_size (Map_set es k v) = (if k \<in> set (Map_keys es) then Map_size es else Suc (Map_size es))"
  by (induction es) (auto simp: Map_keys_def Map_size_def)

lemma Map_keys_set:
  "set (Map_keys (Map_set es k v)) = insert k (set (Map_keys es))"
  by (induction es) (auto simp: Map_keys_def)

lemma Map_keys_delete: "set (Map_keys (Map_delete es k)) = set (Map_keys es) - {k}"
  by (auto simp: Map_keys_def Map_delete_def)

lemma Map_get_delete_same: "Map_get (Map_delete es k) k = None"
  by (simp add: Map_get_None_iff Map_keys_delete)

lemma Map_get_delete_other: "k' \<noteq> k \<Longrightarrow> Map_get (Map_delete es k) k' = Map_get es k'"
  by (induction es) (auto simp: Map_delete_def)

lemma Map_delete_remove1:
  "distinct (Map_keys es) \<Longrightarrow> e \<in> set es \<Longrightarrow> Map_delete es (fst e) = remove1 e es"
proof (induction es)
  case Nil
  then show ?case by simp
next
  case (Cons x es)
  show ?case
  proof (cases "x = e")
    case True
    with Cons.prems have "fst e \<notin> fst ` set es"
      by (simp add: Map_keys_def)
    then have "filter (\<lambda>y. fst y \<noteq> fst e) es = es"
      unfolding filter_id_conv by (metis imageI)
    with True show ?thesis
      by (simp add: Map_delete_def)
  next
    case False
    with Cons.prems have mem: "e \<in> set es" and dis: "distinct (Map_keys es)"
      and "fst x \<notin> fst ` set es"
      by (auto simp: Map_keys_def)
    then have "fst x \<noteq> fst e"
      by auto
    with False Cons.IH [OF dis mem] show ?thesis
      by (simp add: Map_delete_def)
  qed
qed

subsection \<open>The head of the sorted entries\<close>

lemma insert_sorted_head:
  "\<exists>rest. insert_sorted c a bs =
     (case bs of [] \<Rightarrow> a | b # _ \<Rightarrow> if c a b \<le> 0 then a else b) # rest"
  by (cases bs) auto

lemma Array_sort_oldest:
  "es \<noteq> [] \<Longrightarrow>
   \<exists>oldest rest. Array_sort byStartTime es = oldest # rest \<and> oldest \<in> set es \<and>
     (\<forall>e \<in> set es. startTime (snd oldest) \<le> startTime (snd e))"
proof (induction es)
  case Nil
  then show ?case by simp
next
  case (Cons a es)
  show ?case
  proof (cases "es = []")
    case True
    then show ?thesis by simp
  next
    case False
    from Cons.IH [OF False] obtain b rest where
      srt: "Array_sort byStartTime es = b # rest" and mem: "b \<in> set es"
      and least: "\<forall>e \<in> set es. startTime (snd b) \<le> startTime (snd e)"
      by blast
    show ?thesis
    proof (cases "byStartTime a b \<le> 0")
      case True
      then have "startTime (snd a) \<le> startTime (snd b)"
        by (simp add: byStartTime_def)
      with least have "\<forall>e \<in> set (a # es). startTime (snd a) \<le> startTime (snd e)"
        by auto
      with True srt show ?thesis
        by auto
    next
      case False
      then have "startTime (snd b) \<le> startTime (snd a)"
        by (simp add: byStartTime_def)
      with least have "\<forall>e \<in> set (a # es). startTime (snd b) \<le> startTime (snd e)"
        by auto
      with False srt mem show ?thesis
        by auto
    qed
  qed
qed

subsection \<open>Eviction\<close>

lemma clearOldMetrics_evicts:
  assumes "distinct (Map_keys (metrics w))" and "metrics w \<noteq> []"
  shows "\<exists>oldest \<in> set (metrics w).
           (\<forall>e \<in> set (metrics w). startTime (snd oldest) \<le> startTime (snd e)) \<and>
           clearOldMetrics w = w\<lparr>metrics := remove1 oldest (metrics w)\<rparr>"
proof -
  from Array_sort_oldest [OF assms(2)] obtain oldest rest where
    srt: "Array_sort byStartTime (metrics w) = oldest # rest" and mem: "oldest \<in> set (metrics w)"
    and least: "\<forall>e \<in> set (metrics w). startTime (snd oldest) \<le> startTime (snd e)"
    by blast
  have "clearOldMetrics w = w\<lparr>metrics := Map_delete (metrics w) (fst oldest)\<rparr>"
    by (simp add: clearOldMetrics_def srt)
  with Map_delete_remove1 [OF assms(1) mem] mem least show ?thesis
    by auto
qed

subsection \<open>The sample registry\<close>

lemma sample_key_inj: "sample_key i = sample_key j \<Longrightarrow> i = j"
proof -
  assume "sample_key i = sample_key j"
  then have "length (sample_key i) = length (sample_key j)"
    by simp
  then show "i = j"
    by (simp add: sample_key_def)
qed

lemma sample_world_keys: "Map_keys (metrics (sample_world n)) = map sample_key [0..<n]"
  by (simp add: sample_world_def Map_keys_def sample_metric_def comp_def)

lemma sample_world_distinct: "distinct (Map_keys (metrics (sample_world n)))"
  by (auto simp: sample_world_keys distinct_map inj_on_def dest: sample_key_inj)

lemma sample_world_size: "Map_size (metrics (sample_world n)) = n"
  by (simp add: sample_world_def Map_size_def)

lemma sample_key_letters: "set (sample_key i) \<subseteq> {CHR ''k''}"
  by (auto simp: sample_key_def)

lemma fresh_not_sample: "''fresh'' \<notin> set (Map_keys (metrics (sample_world n)))"
proof
  assume "''fresh'' \<in> set (Map_keys (metrics (sample_world n)))"
  then obtain i where "sample_key i = ''fresh''"
    by (auto simp: sample_world_keys)
  with sample_key_letters [of i] show False
    by simp
qed

lemma sample_world_get: "i < n \<Longrightarrow> getMetric (sample_key i) (sample_world n) = Some (snd (sample_metric i))"
proof -
  assume "i < n"
  then have "sample_metric i \<in> set (metrics (sample_world n))"
    by (simp add: sample_world_def)
  then have "(sample_key i, snd (sample_metric i)) \<in> set (metrics (sample_world n))"
    by (simp add: sample_metric_def)
  from Map_get_mem [OF sample_world_distinct this] show ?thesis
    by (simp add: getMetric_def)
qed

subsection \<open>startMeasure at capacity\<close>

text \<open>
  C1. When the registry holds 1000 records (with pairwise distinct keys, as a Map has)
  and \<open>nm\<close> is not one of its keys, \<open>startMeasure(nm)\<close> removes exactly one record,
  \<open>oldest\<close>, whose \<open>startTime\<close> is least among all records held at the call, then
  appends the new record for \<open>nm\<close>; the size afterwards is 1000, so at most 1000.
\<close>

theorem startMeasure_at_capacity_fresh:
  assumes "distinct (Map_keys (metrics w))"
    and "Map_size (metrics w) = 1000"
    and "nm \<notin> set (Map_keys (metrics w))"
  shows "\<exists>oldest \<in> set (metrics w).
           (\<forall>e \<in> set (metrics w). startTime (snd oldest) \<le> startTime (snd e)) \<and>
           metrics (startMeasure now nm w) =
             remove1 oldest (metrics w) @
               [(nm, \<lparr>name = nm, startTime = now, endTime = None, duration = None\<rparr>)] \<and>
           Map_size (metrics (startMeasure now nm w)) = 1000 \<and>
           Map_size (metrics (startMeasure now nm w)) \<le> 1000"
proof -
  from assms(2) have ne: "metrics w \<noteq> []"
    by (auto simp: Map_size_def)
  from clearOldMetrics_evicts [OF assms(1) ne] obtain oldest where
    mem: "oldest \<in> set (metrics w)"
    and least: "\<forall>e \<in> set (metrics w). startTime (snd oldest) \<le> startTime (snd e)"
    and clr: "clearOldMetrics w = w\<lparr>metrics := remove1 oldest (metrics w)\<rparr>"
    by blast
  from assms(3) have fresh: "nm \<notin> set (Map_keys (remove1 oldest (metrics w)))"
    using set_remove1_subset [of oldest "metrics w"] by (auto simp: Map_keys_def)
  have "metrics (startMeasure now nm w) =
          Map_set (remove1 oldest (metrics w)) nm
            \<lparr>name = nm, startTime = now, endTime = None, duration = None\<rparr>"
    using assms(2) by (simp add: startMeasure_def maxMetrics_def clr)
  then have after: "metrics (startMeasure now nm w) =
      remove1 oldest (metrics w) @
        [(nm, \<lparr>name = nm, startTime = now, endTime = None, duration = None\<rparr>)]"
    by (simp add: Map_set_fresh [OF fresh])
  from mem assms(2) have "Map_size (metrics (startMeasure now nm w)) = 1000"
    by (simp add: after Map_size_def length_remove1)
  with mem least after show ?thesis
    by auto
qed


theorem startMeasure_at_capacity_fresh_witness:
  "distinct (Map_keys (metrics (sample_world 1000))) \<and>
   Map_size (metrics (sample_world 1000)) = 1000 \<and>
   ''fresh'' \<notin> set (Map_keys (metrics (sample_world 1000))) \<and>
   metrics (startMeasure 2000 ''fresh'' (sample_world 1000)) =
     remove1 (sample_metric 0) (metrics (sample_world 1000)) @
       [(''fresh'', \<lparr>name = ''fresh'', startTime = 2000, endTime = None, duration = None\<rparr>)] \<and>
   Map_size (metrics (startMeasure 2000 ''fresh'' (sample_world 1000))) = 1000"
proof -
  let ?w = "sample_world 1000"
  from startMeasure_at_capacity_fresh
    [OF sample_world_distinct sample_world_size fresh_not_sample, of 2000]
  obtain oldest where mem: "oldest \<in> set (metrics ?w)"
    and least: "\<forall>e \<in> set (metrics ?w). startTime (snd oldest) \<le> startTime (snd e)"
    and after: "metrics (startMeasure 2000 ''fresh'' ?w) =
      remove1 oldest (metrics ?w) @
        [(''fresh'', \<lparr>name = ''fresh'', startTime = 2000, endTime = None, duration = None\<rparr>)]"
    and size: "Map_size (metrics (startMeasure 2000 ''fresh'' ?w)) = 1000"
    by blast
  from mem obtain i where i: "oldest = sample_metric i"
    by (auto simp: sample_world_def)
  have "sample_metric 0 \<in> set (metrics ?w)"
    by (simp add: sample_world_def)
  with least have "startTime (snd oldest) \<le> startTime (snd (sample_metric 0))"
    by blast
  with i have "oldest = sample_metric 0"
    by (simp add: sample_metric_def)
  with after size sample_world_distinct sample_world_size fresh_not_sample show ?thesis
    by simp
qed

text \<open>
  C10. When the registry holds 1000 records (with pairwise distinct keys) and \<open>nm\<close> is
  already a key, \<open>startMeasure(nm)\<close> still removes a record \<open>oldest\<close> of least
  \<open>startTime\<close> before it sets the record of \<open>nm\<close>. When some record started strictly
  before the one of \<open>nm\<close>, the removed record is another name's: that name is no longer
  tracked and the size drops to 999.
\<close>

theorem startMeasure_at_capacity_existing:
  assumes "distinct (Map_keys (metrics w))"
    and "Map_size (metrics w) = 1000"
    and "getMetric nm w = Some m"
  shows "\<exists>oldest \<in> set (metrics w).
           (\<forall>e \<in> set (metrics w). startTime (snd oldest) \<le> startTime (snd e)) \<and>
           metrics (startMeasure now nm w) =
             Map_set (remove1 oldest (metrics w)) nm
               \<lparr>name = nm, startTime = now, endTime = None, duration = None\<rparr> \<and>
           ((\<exists>e \<in> set (metrics w). startTime (snd e) < startTime m) \<longrightarrow>
              fst oldest \<noteq> nm \<and>
              getMetric (fst oldest) (startMeasure now nm w) = None \<and>
              Map_size (metrics (startMeasure now nm w)) = 999)"
proof -
  let ?new = "\<lparr>name = nm, startTime = now, endTime = None, duration = None\<rparr>"
  from assms(2) have ne: "metrics w \<noteq> []"
    by (auto simp: Map_size_def)
  from clearOldMetrics_evicts [OF assms(1) ne] obtain oldest where
    mem: "oldest \<in> set (metrics w)"
    and least: "\<forall>e \<in> set (metrics w). startTime (snd oldest) \<le> startTime (snd e)"
    and clr: "clearOldMetrics w = w\<lparr>metrics := remove1 oldest (metrics w)\<rparr>"
    by blast
  have rm: "remove1 oldest (metrics w) = Map_delete (metrics w) (fst oldest)"
    by (simp add: Map_delete_remove1 [OF assms(1) mem])
  have after: "metrics (startMeasure now nm w) = Map_set (remove1 oldest (metrics w)) nm ?new"
    using assms(2) by (simp add: startMeasure_def maxMetrics_def clr)
  have own: "(nm, m) \<in> set (metrics w)"
    using assms(3) by (simp add: getMetric_def Map_get_Some_mem)
  have unrelated: "fst oldest \<noteq> nm \<and>
      getMetric (fst oldest) (startMeasure now nm w) = None \<and>
      Map_size (metrics (startMeasure now nm w)) = 999"
    if "\<exists>e \<in> set (metrics w). startTime (snd e) < startTime m"
  proof -
    from that least have "startTime (snd oldest) < startTime m"
      by fastforce
    then have "oldest \<noteq> (nm, m)"
      by auto
    with assms(1) mem own have other: "fst oldest \<noteq> nm"
      by (metis Map_get_mem option.inject prod.collapse)
    then have "Map_get (Map_delete (metrics w) (fst oldest)) nm = Some m"
      using assms(3) by (simp add: Map_get_delete_other getMetric_def)
    then have "nm \<in> set (Map_keys (remove1 oldest (metrics w)))"
      using Map_get_None_iff [of "remove1 oldest (metrics w)" nm] by (simp add: rm)
    then have "Map_size (metrics (startMeasure now nm w)) = Map_size (remove1 oldest (metrics w))"
      by (simp add: after Map_size_set)
    with mem assms(2) have size: "Map_size (metrics (startMeasure now nm w)) = 999"
      by (simp add: Map_size_def length_remove1)
    from other have "getMetric (fst oldest) (startMeasure now nm w) = None"
      by (simp add: getMetric_def after rm Map_get_set_other Map_get_delete_same)
    with other size show ?thesis
      by simp
  qed
  from mem least after unrelated show ?thesis
    by blast
qed

theorem startMeasure_at_capacity_existing_witness:
  "distinct (Map_keys (metrics (sample_world 1000))) \<and>
   Map_size (metrics (sample_world 1000)) = 1000 \<and>
   getMetric (sample_key 7) (sample_world 1000) = Some (snd (sample_metric 7)) \<and>
   startTime (snd (sample_metric 0)) < startTime (snd (sample_metric 7)) \<and>
   metrics (startMeasure 2000 (sample_key 7) (sample_world 1000)) =
     Map_set (remove1 (sample_metric 0) (metrics (sample_world 1000))) (sample_key 7)
       \<lparr>name = sample_key 7, startTime = 2000, endTime = None, duration = None\<rparr> \<and>
   getMetric (sample_key 0) (startMeasure 2000 (sample_key 7) (sample_world 1000)) = None \<and>
   Map_size (metrics (startMeasure 2000 (sample_key 7) (sample_world 1000))) = 999"
proof -
  let ?w = "sample_world 1000"
  have get7: "getMetric (sample_key 7) ?w = Some (snd (sample_metric 7))"
    by (simp add: sample_world_get)
  have zero: "sample_metric 0 \<in> set (metrics ?w)"
    by (simp add: sample_world_def)
  have older: "startTime (snd (sample_metric 0)) < startTime (snd (sample_metric 7))"
    by (simp add: sample_metric_def)
  with zero have ex: "\<exists>e \<in> set (metrics ?w). startTime (snd e) < startTime (snd (sample_metric 7))"
    by blast
  from startMeasure_at_capacity_existing
    [OF sample_world_distinct sample_world_size get7, of 2000]
  obtain oldest where mem: "oldest \<in> set (metrics ?w)"
    and least: "\<forall>e \<in> set (metrics ?w). startTime (snd oldest) \<le> startTime (snd e)"
    and after: "metrics (startMeasure 2000 (sample_key 7) ?w) =
      Map_set (remove1 oldest (metrics ?w)) (sample_key 7)
        \<lparr>name = sample_key 7, startTime = 2000, endTime = None, duration = None\<rparr>"
    and rest: "(\<exists>e \<in> set (metrics ?w). startTime (snd e) < startTime (snd (sample_metric 7))) \<longrightarrow>
        fst oldest \<noteq> sample_key 7 \<and>
        getMetric (fst oldest) (startMeasure 2000 (sample_key 7) ?w) = None \<and>
        Map_size (metrics (startMeasure 2000 (sample_key 7) ?w)) = 999"
    by blast
  from mem obtain i where i: "oldest = sample_metric i"
    by (auto simp: sample_world_def)
  from zero least have "startTime (snd oldest) \<le> startTime (snd (sample_metric 0))"
    by blast
  with i have oldest: "oldest = sample_metric 0"
    by (simp add: sample_metric_def)
  have "fst (sample_metric 0) = sample_key 0"
    by (simp add: sample_metric_def)
  with oldest after rest ex older get7 sample_world_distinct sample_world_size show ?thesis
    by simp
qed

subsection \<open>Starting a name twice\<close>

text \<open>
  C6. Two calls \<open>startMeasure(name)\<close> in a row, the clock reading \<open>t1\<close> at the first and
  \<open>t2\<close> at the second: afterwards \<open>getMetric(name)\<close> is a record whose \<open>startTime\<close> is
  \<open>t2\<close> and which has neither \<open>endTime\<close> nor \<open>duration\<close>.
\<close>

theorem startMeasure_twice_overwrites:
  "getMetric nm (startMeasure t2 nm (startMeasure t1 nm w)) =
     Some \<lparr>name = nm, startTime = t2, endTime = None, duration = None\<rparr>"
  by (simp add: getMetric_def startMeasure_def Let_def Map_get_set_same)

subsection \<open>endMeasure\<close>

lemma endMeasure_tracked:
  "getMetric nm w = Some m \<Longrightarrow>
   endMeasure now nm w =
     (Some (minus_number now (startTime m)),
      w\<lparr>metrics := Map_set (metrics w) nm
                      (m\<lparr>endTime := Some now, duration := Some (minus_number now (startTime m))\<rparr>),
         logs := logs w @ [LoggerDebug (MeasureDone nm)
                   [(''duration'', minus_number now (startTime m)), (''startTime'', startTime m),
                    (''endTime'', now)]]\<rparr>)"
  by (simp add: endMeasure_def getMetric_def emit_def Let_def)

lemma endMeasure_missing:
  "getMetric nm w = None \<Longrightarrow>
   endMeasure now nm w = (None, w\<lparr>logs := logs w @ [LoggerWarn (MeasureNotFound nm)]\<rparr>)"
  by (simp add: endMeasure_def getMetric_def emit_def)


text \<open>
  C3. When \<open>nm\<close> is not a key of the registry, \<open>endMeasure(nm)\<close> returns
  \<open>undefined\<close> (\<open>None\<close>), emits exactly one entry, a warning of the logger, raises
  nothing, and leaves the registry as it was, its size included.
\<close>

theorem endMeasure_untracked:
  assumes "nm \<notin> set (Map_keys (metrics w))"
  shows "endMeasure now nm w = (None, w\<lparr>logs := logs w @ [LoggerWarn (MeasureNotFound nm)]\<rparr>) \<and>
         metrics (snd (endMeasure now nm w)) = metrics w \<and>
         Map_size (metrics (snd (endMeasure now nm w))) = Map_size (metrics w)"
proof -
  from assms have "getMetric nm w = None"
    by (simp add: getMetric_def Map_get_None_iff)
  then show ?thesis
    by (simp add: endMeasure_missing)
qed

theorem endMeasure_untracked_witness:
  "''never'' \<notin> set (Map_keys (metrics (startMeasure 3 ''op'' newMonitor))) \<and>
   endMeasure 8 ''never'' (startMeasure 3 ''op'' newMonitor) =
     (None, \<lparr>metrics = [(''op'', \<lparr>name = ''op'', startTime = 3, endTime = None, duration = None\<rparr>)],
             logs = [LoggerWarn (MeasureNotFound ''never'')]\<rparr>)"
proof -
  have w: "startMeasure 3 ''op'' newMonitor =
      \<lparr>metrics = [(''op'', \<lparr>name = ''op'', startTime = 3, endTime = None, duration = None\<rparr>)],
       logs = []\<rparr>"
    by (simp add: startMeasure_def newMonitor_def Map_size_def maxMetrics_def)
  have fresh: "''never'' \<notin> set (Map_keys (metrics (startMeasure 3 ''op'' newMonitor)))"
    by (simp add: w Map_keys_def)
  from endMeasure_untracked [OF fresh, of 8] fresh show ?thesis
    by (simp add: w)
qed

text \<open>
  C4. \<open>startMeasure(nm)\<close> at clock reading \<open>t0\<close> followed at once by \<open>endMeasure(nm)\<close>
  at clock reading \<open>t1\<close>: the call returns \<open>d\<close>, the stored record has \<open>startTime = t0\<close>,
  \<open>endTime = t1\<close> and \<open>duration = d\<close>, where \<open>d\<close> is exactly the program's
  \<open>endTime - startTime\<close> on these two doubles (\<open>minus_number t1 t0\<close>), and \<open>d\<close> is not
  negative when the clock did not go back (\<open>t0 \<le> t1\<close>).
\<close>

theorem start_then_end_duration:
  "\<exists>d. endMeasure t1 nm (startMeasure t0 nm w) =
          (Some d, snd (endMeasure t1 nm (startMeasure t0 nm w))) \<and>
        getMetric nm (snd (endMeasure t1 nm (startMeasure t0 nm w))) =
          Some \<lparr>name = nm, startTime = t0, endTime = Some t1, duration = Some d\<rparr> \<and>
        d = minus_number t1 t0 \<and> (t0 \<le> t1 \<longrightarrow> 0 \<le> d)"
proof -
  let ?new = "\<lparr>name = nm, startTime = t0, endTime = None, duration = None\<rparr>"
  have "getMetric nm (startMeasure t0 nm w) = Some ?new"
    by (simp add: getMetric_def startMeasure_def Let_def Map_get_set_same)
  from endMeasure_tracked [OF this, of t1] show ?thesis
    by (simp add: getMetric_def Map_get_set_same minus_number_nonneg)
qed

theorem start_then_end_duration_witness:
  "endMeasure 25 ''op'' (startMeasure 10 ''op'' newMonitor) =
     (Some 15,
      \<lparr>metrics = [(''op'', \<lparr>name = ''op'', startTime = 10, endTime = Some 25, duration = Some 15\<rparr>)],
       logs = [LoggerDebug (MeasureDone ''op'')
                 [(''duration'', 15), (''startTime'', 10), (''endTime'', 25)]]\<rparr>) \<and>
   minus_number 25 10 = 15 \<and> (10::real) \<le> 25 \<and> (0::real) \<le> 15 \<and>
   getMetric ''op''
     (snd (endMeasure (7086132538690765 / 2 ^ 46) ''op''
        (startMeasure (3602879701896397 / 2 ^ 55) ''op'' newMonitor))) =
     Some \<lparr>name = ''op'', startTime = 3602879701896397 / 2 ^ 55,
            endTime = Some (7086132538690765 / 2 ^ 46),
            duration = Some (7079095664272999 / 2 ^ 46)\<rparr>"
proof -
  have w: "startMeasure 10 ''op'' newMonitor =
      \<lparr>metrics = [(''op'', \<lparr>name = ''op'', startTime = 10, endTime = None, duration = None\<rparr>)],
       logs = []\<rparr>"
    by (simp add: startMeasure_def newMonitor_def Map_size_def maxMetrics_def)
  have d: "minus_number 25 10 = 15"
    by (simp add: minus_number_def round_double_numeral)
  have e: "endMeasure 25 ''op'' (startMeasure 10 ''op'' newMonitor) =
     (Some 15,
      \<lparr>metrics = [(''op'', \<lparr>name = ''op'', startTime = 10, endTime = Some 25, duration = Some 15\<rparr>)],
       logs = [LoggerDebug (MeasureDone ''op'')
                 [(''duration'', 15), (''startTime'', 10), (''endTime'', 25)]]\<rparr>)"
    by (simp add: w endMeasure_def emit_def Let_def d)
  from start_then_end_duration
    [of "7086132538690765 / 2 ^ 46" "''op''" "3602879701896397 / 2 ^ 55" newMonitor]
  have "getMetric ''op''
     (snd (endMeasure (7086132538690765 / 2 ^ 46) ''op''
        (startMeasure (3602879701896397 / 2 ^ 55) ''op'' newMonitor))) =
     Some \<lparr>name = ''op'', startTime = 3602879701896397 / 2 ^ 55,
            endTime = Some (7086132538690765 / 2 ^ 46),
            duration = Some (7079095664272999 / 2 ^ 46)\<rparr>"
    by (simp only: minus_number_rounds_up) (elim exE conjE, simp)
  with e d show ?thesis
    by simp
qed

subsection \<open>The pairing of duration and endTime\<close>

lemma Map_set_entries: "set (Map_set es k v) \<subseteq> insert (k, v) (set es)"
  by (induction es) auto

lemma clearOldMetrics_entries: "set (metrics (clearOldMetrics w)) \<subseteq> set (metrics w)"
  by (auto simp: clearOldMetrics_def Map_delete_def split: list.splits)

lemma startMeasure_entries:
  "set (metrics (startMeasure now nm w)) \<subseteq>
     insert (nm, \<lparr>name = nm, startTime = now, endTime = None, duration = None\<rparr>) (set (metrics w))"
proof -
  let ?new = "\<lparr>name = nm, startTime = now, endTime = None, duration = None\<rparr>"
  let ?w1 = "if maxMetrics \<le> Map_size (metrics w) then clearOldMetrics w else w"
  have kept: "set (metrics ?w1) \<subseteq> set (metrics w)"
    by (simp add: clearOldMetrics_entries)
  have "metrics (startMeasure now nm w) = Map_set (metrics ?w1) nm ?new"
    by (simp add: startMeasure_def Let_def)
  then have "set (metrics (startMeasure now nm w)) \<subseteq> insert (nm, ?new) (set (metrics ?w1))"
    by (simp only: Map_set_entries)
  also have "\<dots> \<subseteq> insert (nm, ?new) (set (metrics w))"
    using kept by (rule insert_mono)
  finally show ?thesis .
qed

lemma endMeasure_entries:
  "e \<in> set (metrics (snd (endMeasure now nm w))) \<Longrightarrow>
   e \<in> set (metrics w) \<or> (endTime (snd e) \<noteq> None \<and> duration (snd e) \<noteq> None)"
proof (cases "getMetric nm w")
  case None
  assume "e \<in> set (metrics (snd (endMeasure now nm w)))"
  with None show ?thesis
    by (simp add: endMeasure_missing)
next
  case (Some m)
  assume "e \<in> set (metrics (snd (endMeasure now nm w)))"
  with Some have "e \<in> set (Map_set (metrics w) nm
      (m\<lparr>endTime := Some now, duration := Some (minus_number now (startTime m))\<rparr>))"
    by (simp add: endMeasure_tracked)
  with Map_set_entries show ?thesis
    by fastforce
qed

lemma perform_keeps_pairing:
  assumes "\<forall>e \<in> set (metrics w). (duration (snd e) \<noteq> None) = (endTime (snd e) \<noteq> None)"
  shows "\<forall>e \<in> set (metrics (perform operation w)).
           (duration (snd e) \<noteq> None) = (endTime (snd e) \<noteq> None)"
proof
  fix e
  assume mem: "e \<in> set (metrics (perform operation w))"
  show "(duration (snd e) \<noteq> None) = (endTime (snd e) \<noteq> None)"
  proof (cases operation)
    case (StartMeasure t nm)
    with mem startMeasure_entries [of t nm w]
    have "e = (nm, \<lparr>name = nm, startTime = t, endTime = None, duration = None\<rparr>) \<or>
        e \<in> set (metrics w)"
      by auto
    with assms show ?thesis
      by auto
  next
    case (EndMeasure t nm)
    with mem have "e \<in> set (metrics (snd (endMeasure t nm w)))"
      by simp
    from endMeasure_entries [OF this] assms show ?thesis
      by auto
  next
    case (GetMetric nm)
    with mem assms show ?thesis by simp
  next
    case GetAllMetrics
    with mem assms show ?thesis by simp
  next
    case ClearMetrics
    with mem show ?thesis by (simp add: clearMetrics_def)
  qed
qed

lemma run_keeps_pairing:
  "\<forall>e \<in> set (metrics w). (duration (snd e) \<noteq> None) = (endTime (snd e) \<noteq> None) \<Longrightarrow>
   \<forall>e \<in> set (metrics (run ops w)). (duration (snd e) \<noteq> None) = (endTime (snd e) \<noteq> None)"
proof (induction ops arbitrary: w)
  case Nil
  then show ?case by simp
next
  case (Cons operation rest)
  from Cons.IH [OF perform_keeps_pairing [OF Cons.prems]] show ?case
    by simp
qed

text \<open>
  C5. Starting from the empty registry, after any sequence of calls of \<open>startMeasure\<close>,
  \<open>endMeasure\<close>, \<open>getMetric\<close>, \<open>getAllMetrics\<close> and \<open>clearMetrics\<close> (at any clock
  readings), every record held has a \<open>duration\<close> if and only if it has an \<open>endTime\<close>.
\<close>

theorem duration_present_iff_endTime_present:
  assumes "metrics w0 = []"
  shows "\<forall>m \<in> set (getAllMetrics (run ops w0)). (duration m \<noteq> None) = (endTime m \<noteq> None)"
proof -
  from assms have "\<forall>e \<in> set (metrics w0). (duration (snd e) \<noteq> None) = (endTime (snd e) \<noteq> None)"
    by simp
  from run_keeps_pairing [OF this] show ?thesis
    by (simp add: getAllMetrics_def)
qed

theorem duration_present_iff_endTime_present_witness:
  "metrics newMonitor = [] \<and>
   getAllMetrics
     (run [StartMeasure 1 ''a'', StartMeasure 2 ''b'', EndMeasure 5 ''a'', GetMetric ''a'']
        newMonitor) =
     [\<lparr>name = ''a'', startTime = 1, endTime = Some 5, duration = Some 4\<rparr>,
      \<lparr>name = ''b'', startTime = 2, endTime = None, duration = None\<rparr>] \<and>
   list_all (\<lambda>m. (duration m \<noteq> None) = (endTime m \<noteq> None))
     (getAllMetrics
        (run [StartMeasure 1 ''a'', StartMeasure 2 ''b'', EndMeasure 5 ''a'', GetMetric ''a'']
           newMonitor))"
proof -
  have empty: "metrics newMonitor = []"
    by (simp add: newMonitor_def)
  have "getAllMetrics
     (run [StartMeasure 1 ''a'', StartMeasure 2 ''b'', EndMeasure 5 ''a'', GetMetric ''a'']
        newMonitor) =
     [\<lparr>name = ''a'', startTime = 1, endTime = Some 5, duration = Some 4\<rparr>,
      \<lparr>name = ''b'', startTime = 2, endTime = None, duration = None\<rparr>]"
    by (simp add: newMonitor_def startMeasure_def endMeasure_def getAllMetrics_def emit_def
        Map_size_def maxMetrics_def Let_def minus_number_def round_double_numeral)
  with empty duration_present_iff_endTime_present [OF empty,
      of "[StartMeasure 1 ''a'', StartMeasure 2 ''b'', EndMeasure 5 ''a'', GetMetric ''a'']"]
  show ?thesis
    by (simp add: list_all_iff)
qed

subsection \<open>The decorator\<close>







subsection \<open>The threshold logger and the render wrapper\<close>

text \<open>
  C8. \<open>monitorPerformance(functionName, startTime)\<close> at clock reading \<open>now\<close>, for any
  double \<open>startTime\<close> (NaN and the infinities included): with \<open>elapsed\<close> the program's
  \<open>now - startTime\<close>, it appends to the log the warning line exactly when
  \<open>elapsed > 100\<close> holds in the program's comparison, and then, in every case, the one
  informational line with \<open>elapsed\<close>; it leaves the registry unchanged and has no
  failing branch.
\<close>

theorem monitorPerformance_logs:
  "monitorPerformance now functionName startTime' w =
     w\<lparr>logs := logs w @
          (if js_greater (js_minus (Finite now) startTime') (Finite 100)
           then [ConsoleWarn (PerformanceWarning functionName (js_minus (Finite now) startTime'))]
           else []) @
          [ConsoleLog (PerformanceLine functionName (js_minus (Finite now) startTime'))]\<rparr> \<and>
   metrics (monitorPerformance now functionName startTime' w) = metrics w"
  by (simp add: monitorPerformance_def emit_def Let_def)

text \<open>
  Elapsed 150 warns; elapsed 10 and elapsed exactly 100 do not. With the doubles nearest
  to 100.7 and 0.7 the exact difference exceeds 100 but the program's is 100: no warning.
  A NaN start gives a NaN elapsed time and no warning; a start of minus infinity gives an
  infinite elapsed time and the warning.
\<close>

theorem monitorPerformance_logs_witness:
  "monitorPerformance 1000 ''op'' (Finite 850) newMonitor =
     \<lparr>metrics = [],
      logs = [ConsoleWarn (PerformanceWarning ''op'' (Finite 150)),
              ConsoleLog (PerformanceLine ''op'' (Finite 150))]\<rparr> \<and>
   monitorPerformance 1000 ''op'' (Finite 990) newMonitor =
     \<lparr>metrics = [], logs = [ConsoleLog (PerformanceLine ''op'' (Finite 10))]\<rparr> \<and>
   monitorPerformance 1000 ''op'' (Finite 900) newMonitor =
     \<lparr>metrics = [], logs = [ConsoleLog (PerformanceLine ''op'' (Finite 100))]\<rparr> \<and>
   monitorPerformance (7086132538690765 / 2 ^ 46) ''op'' (Finite (6305039478318694 / 2 ^ 53))
       newMonitor =
     \<lparr>metrics = [], logs = [ConsoleLog (PerformanceLine ''op'' (Finite 100))]\<rparr> \<and>
   monitorPerformance 1000 ''op'' NaN newMonitor =
     \<lparr>metrics = [], logs = [ConsoleLog (PerformanceLine ''op'' NaN)]\<rparr> \<and>
   monitorPerformance 1000 ''op'' NegativeInfinity newMonitor =
     \<lparr>metrics = [],
      logs = [ConsoleWarn (PerformanceWarning ''op'' PositiveInfinity),
              ConsoleLog (PerformanceLine ''op'' PositiveInfinity)]\<rparr>"
proof -
  have small: "minus_number 1000 850 = 150" "minus_number 1000 990 = 10"
    "minus_number 1000 900 = 100"
    by (simp_all add: minus_number_def round_double_numeral)
  have finite: "to_js_number 150 = Finite 150" "to_js_number 10 = Finite 10"
    "to_js_number 100 = Finite 100"
    by (simp_all add: to_js_number_def)
  have near: "monitorPerformance (7086132538690765 / 2 ^ 46) ''op''
        (Finite (6305039478318694 / 2 ^ 53)) newMonitor =
      \<lparr>metrics = [], logs = [ConsoleLog (PerformanceLine ''op'' (Finite 100))]\<rparr>"
    using monitorPerformance_logs [of "7086132538690765 / 2 ^ 46" "''op''"
        "Finite (6305039478318694 / 2 ^ 53)" newMonitor]
    by (simp only: js_minus.simps minus_number_rounds_down) (simp add: newMonitor_def finite)
  show ?thesis
    using monitorPerformance_logs [of 1000 "''op''" "Finite 850" newMonitor]
      monitorPerformance_logs [of 1000 "''op''" "Finite 990" newMonitor]
      monitorPerformance_logs [of 1000 "''op''" "Finite 900" newMonitor]
      monitorPerformance_logs [of 1000 "''op''" NaN newMonitor]
      monitorPerformance_logs [of 1000 "''op''" NegativeInfinity newMonitor] near
    by (simp add: newMonitor_def small finite)
qed

text \<open>
  C9. The function returned by \<open>withPerformanceMonitoring\<close> returns what
  \<open>React.createElement(WrappedComponent, props)\<close> returned, appends one debug entry
  carrying the program's \<open>duration = endTime - startTime\<close> (\<open>minus_number t1 t0\<close>), and
  leaves the registry unchanged.
\<close>

theorem withPerformanceMonitoring_store_unchanged:
  "withPerformanceMonitoring createElement WrappedComponent componentName t0 t1 props w =
     (createElement WrappedComponent props,
      w\<lparr>logs := logs w @
           [LoggerDebug (ComponentRendering componentName)
              [(''duration'', minus_number t1 t0), (''startTime'', t0), (''endTime'', t1)]]\<rparr>) \<and>
   metrics (snd (withPerformanceMonitoring createElement WrappedComponent componentName t0 t1
                   props w)) = metrics w"
  by (simp add: withPerformanceMonitoring_def emit_def Let_def)

end
